theory Spec2Isabelle
  imports Complex_Main "HOL-Library.AList"
begin

section \<open>Data model of the LegalBench-RAG evaluation notebook\<close>

text \<open>
  The notebook \<^verbatim>\<open>RAG_Evaluation_LegalBench-RAG.ipynb\<close> is a sequence of cells run top to
  bottom. Each cell is modelled by a function from the values the cell reads to the values
  it leaves behind. Python dictionaries with a fixed set of literal keys are records whose
  fields carry the keys' names; a dictionary that is built and read by key (the metadata of
  a document, the metric accumulator) is an association list in insertion order. Python
  strings are \<^typ>\<open>string\<close> and Python's unbounded integers are \<^typ>\<open>int\<close>. The scores
  returned by the scoring framework are Python floats: their type is a parameter of the
  model, with the operations the notebook applies to them as parameters too, so that
  nothing is assumed of floating-point arithmetic. Every exception the notebook's own statements
  can raise is a value of \<open>py_error\<close>; a cell that can raise returns
  \<open>py_error + result\<close>.
\<close>

datatype py_error =
    FileNotFoundError string
  | IndexError
  | KeyError string
  | TypeError

datatype meta_value = MStr string | MInt int

type_synonym metadata_dict = "(string \<times> meta_value) list"

text \<open>
  A chunk as the checkpoint file keeps it, \<^verbatim>\<open>{"page_content": ...}\<close>, and a langchain
  \<^verbatim>\<open>Document(page_content=..., metadata=...)\<close>, which extends it.
\<close>

record page =
  page_content :: string

record document = page +
  metadata :: metadata_dict

text \<open>
  The files the notebook reads and writes: \<open>dirs\<close> gives what \<^verbatim>\<open>os.listdir\<close> returns
  for a directory path, \<open>files\<close> the text of a file opened with \<^verbatim>\<open>open(path, "r")\<close>,
  and \<open>json_files\<close> the document held by a file that \<^verbatim>\<open>json.dump\<close> wrote and
  \<^verbatim>\<open>json.load\<close> reads (the JSON text itself is not modelled: the standard library
  renders and parses a document of integers, strings, lists and objects faithfully).
\<close>

datatype json = JInt int | JStr string | JList "json list" | JObj "(string \<times> json) list"

record filesystem =
  dirs :: "string \<rightharpoonup> string list"
  files :: "string \<rightharpoonup> string"
  json_files :: "string \<rightharpoonup> json"

subsection \<open>Cell 2: the corpus loader\<close>

text \<open>\<^verbatim>\<open>file.endswith(".txt")\<close>\<close>

definition endswith :: "string \<Rightarrow> string \<Rightarrow> bool" where
  "endswith s suf \<longleftrightarrow>
     length suf \<le> length s \<and> drop (length s - length suf) s = suf"

text \<open>
  \<^verbatim>\<open>
  for file in os.listdir(folder):
      if file.endswith(".txt"):
          filepath = folder + file
          with open(filepath, "r", encoding="utf-8") as f:
              doc = Document(page_content=f.read(),
                             metadata={"source_dataset": folder, "filename": file})
              legalbench_rag_retrieval_docs.append(doc)
  \<close>
  The inner loop over the entries of one folder; \<open>docs\<close> is the list built so far.
\<close>

fun load_folder ::
  "filesystem \<Rightarrow> string \<Rightarrow> string list \<Rightarrow> document list \<Rightarrow> py_error + document list"
where
  "load_folder fs folder [] docs = Inr docs"
| "load_folder fs folder (file # rest) docs =
     (if endswith file ''.txt'' then
        (let filepath = folder @ file in
         case files fs filepath of
           None \<Rightarrow> Inl (FileNotFoundError filepath)
         | Some content \<Rightarrow>
             load_folder fs folder rest
               (docs @ [\<lparr>page_content = content,
                         metadata = [(''source_dataset'', MStr folder),
                                     (''filename'', MStr file)]\<rparr>]))
      else load_folder fs folder rest docs)"

text \<open>\<^verbatim>\<open>for folder in directories: ...\<close>\<close>

fun load_directories ::
  "filesystem \<Rightarrow> string list \<Rightarrow> document list \<Rightarrow> py_error + document list"
where
  "load_directories fs [] docs = Inr docs"
| "load_directories fs (folder # rest) docs =
     (case dirs fs folder of
        None \<Rightarrow> Inl (FileNotFoundError folder)
      | Some entries \<Rightarrow>
          (case load_folder fs folder entries docs of
             Inl e \<Rightarrow> Inl e
           | Inr docs' \<Rightarrow> load_directories fs rest docs'))"

definition legalbench_rag_retrieval_docs ::
  "filesystem \<Rightarrow> string list \<Rightarrow> py_error + document list"
where
  "legalbench_rag_retrieval_docs fs directories = load_directories fs directories []"

text \<open>The directories the notebook passes.\<close>

definition directories :: "string list" where
  "directories = [''./Datasets/contractnli/'', ''./Datasets/cuad/'',
                  ''./Datasets/maud/'', ''./Datasets/privacy_qa/'']"

text \<open>
  The entries of a directory that the loader takes for text files (the names ending in
  \<^verbatim>\<open>.txt\<close>), used to state how many documents a load yields.
\<close>

definition txt_entries :: "filesystem \<Rightarrow> string \<Rightarrow> string list" where
  "txt_entries fs folder =
     filter (\<lambda>file. endswith file ''.txt'')
       (case dirs fs folder of None \<Rightarrow> [] | Some entries \<Rightarrow> entries)"

text \<open>
  The document the loader builds for the entry \<open>file\<close> of \<open>folder\<close>, used to state
  what a load returns.
\<close>

definition loaded_doc :: "filesystem \<Rightarrow> string \<Rightarrow> string \<Rightarrow> document" where
  "loaded_doc fs folder file =
     \<lparr>page_content = (case files fs (folder @ file) of None \<Rightarrow> [] | Some content \<Rightarrow> content),
      metadata = [(''source_dataset'', MStr folder), (''filename'', MStr file)]\<rparr>"

subsection \<open>Cell 3: the question-answer loader\<close>

text \<open>
  A benchmark file as \<^verbatim>\<open>json.load\<close> returns it:
  \<^verbatim>\<open>{"tests": [{"query": str, "snippets": [{"answer": str, "file_path": str}]}]}\<close>.
\<close>

record snippet =
  answer :: string
  file_path :: string

record example =
  query :: string
  snippets :: "snippet list"

record benchmark_data =
  tests :: "example list"

text \<open>
  The fields \<^verbatim>\<open>query_id\<close> and \<^verbatim>\<open>query\<close> that every later dictionary of the notebook
  carries; a question-answer pair adds \<^verbatim>\<open>answers\<close>.
\<close>

record query_rec =
  query_id :: int
  query :: string

record qa = query_rec +
  answers :: "string list"

text \<open>
  \<^verbatim>\<open>
  answers = []
  for snippet in example["snippets"]:
      answers.append(snippet["answer"] + "\nSource: " + snippet["file_path"])
  \<close>
  \<open>acc\<close> is the list \<^verbatim>\<open>answers\<close> built so far.
\<close>

fun snippet_answers :: "snippet list \<Rightarrow> string list \<Rightarrow> string list" where
  "snippet_answers [] acc = acc"
| "snippet_answers (snippet # rest) acc =
     snippet_answers rest
       (acc @ [answer snippet @ ''\<newline>Source: '' @ file_path snippet])"

text \<open>
  \<^verbatim>\<open>
  for example in data["tests"]:
      query = example["query"]
      ...
      legalbench_rag_qa.append({"query_id": query_id, "query": query, "answers": answers})
      query_id += 1
  \<close>
  The state of the loop is the list built so far (\<open>qas\<close>) and the counter
  \<^verbatim>\<open>query_id\<close> (\<open>next_id\<close>).
\<close>

fun load_tests :: "example list \<Rightarrow> qa list \<times> int \<Rightarrow> qa list \<times> int" where
  "load_tests [] st = st"
| "load_tests (example # rest) (qas, next_id) =
     load_tests rest
       (qas @
          [\<lparr>query_id = next_id, query = example.query example,
            answers = snippet_answers (snippets example) []\<rparr>],
        next_id + 1)"

text \<open>
  \<^verbatim>\<open>for benchmark in benchmarks: with open(benchmark, ...) as file: data = json.load(file)\<close>;
  \<open>bfiles\<close> gives the parsed content of each benchmark path, and a path with none
  raises.
\<close>

fun load_benchmarks ::
  "(string \<rightharpoonup> benchmark_data) \<Rightarrow> string list \<Rightarrow> qa list \<times> int \<Rightarrow> py_error + qa list \<times> int"
where
  "load_benchmarks bfiles [] st = Inr st"
| "load_benchmarks bfiles (benchmark # rest) st =
     (case bfiles benchmark of
        None \<Rightarrow> Inl (FileNotFoundError benchmark)
      | Some data \<Rightarrow> load_benchmarks bfiles rest (load_tests (tests data) st))"

text \<open>The cell: \<^verbatim>\<open>legalbench_rag_qa = []\<close>, \<^verbatim>\<open>query_id = 1\<close>, then the loops.\<close>

definition legalbench_rag_qa ::
  "(string \<rightharpoonup> benchmark_data) \<Rightarrow> string list \<Rightarrow> py_error + qa list"
where
  "legalbench_rag_qa bfiles benchmarks =
     (case load_benchmarks bfiles benchmarks ([], 1) of
        Inl e \<Rightarrow> Inl e
      | Inr (qas, next_id) \<Rightarrow> Inr qas)"

text \<open>All test entries of the benchmark files, in path order and then file order.\<close>

definition all_tests :: "(string \<rightharpoonup> benchmark_data) \<Rightarrow> string list \<Rightarrow> example list" where
  "all_tests bfiles benchmarks =
     concat (map (\<lambda>b. case bfiles b of None \<Rightarrow> [] | Some data \<Rightarrow> tests data) benchmarks)"

subsection \<open>Cell 5: chunking\<close>

text \<open>
  \<^verbatim>\<open>
  text_splitter = RecursiveCharacterTextSplitter(chunk_size=2000, chunk_overlap=500,
                                                 add_start_index=True)
  legalbench_rag_chunks = text_splitter.split_documents(legalbench_rag_retrieval_docs)
  \<close>
\<close>

record splitter_config =
  chunk_size :: nat
  chunk_overlap :: nat
  add_start_index :: bool

definition text_splitter :: splitter_config where
  "text_splitter = \<lparr>chunk_size = 2000, chunk_overlap = 500, add_start_index = True\<rparr>"

text \<open>
  Modelled from the spec: the splitting algorithm itself, \<^verbatim>\<open>split_documents\<close> of langchain's
  \<^verbatim>\<open>RecursiveCharacterTextSplitter\<close>, is a library the notebook only calls. The spec (4.2)
  describes it as fixed-size overlapping windows: consecutive windows over one document
  overlap by \<open>chunk_overlap\<close> characters, each chunk records the offset at which it starts,
  and a document shorter than the window is one chunk. \<open>window_starts w ov n start\<close> lists
  the start offsets of the windows of \<open>w\<close> characters, overlapping by \<open>ov\<close>, over a text of
  \<open>n\<close> characters from offset \<open>start\<close> on: the window at \<open>start\<close> is the last one when
  it reaches the end of the text.
\<close>

function window_starts :: "nat \<Rightarrow> nat \<Rightarrow> nat \<Rightarrow> nat \<Rightarrow> nat list" where
  "window_starts w ov n start =
     (if ov < w \<and> start + w < n
      then start # window_starts w ov n (start + (w - ov))
      else [start])"
  by pat_completeness auto
termination
  by (relation "measure (\<lambda>(w, ov, n, start). n - start)") auto

declare window_starts.simps [simp del]

text \<open>
  Modelled from the spec: the chunks of one document, each the window's text with the
  document's metadata and (with \<^verbatim>\<open>add_start_index\<close>) the key \<^verbatim>\<open>start_index\<close>.
\<close>

definition split_document :: "splitter_config \<Rightarrow> document \<Rightarrow> document list" where
  "split_document cfg doc =
     map (\<lambda>start.
            \<lparr>page_content = take (chunk_size cfg) (drop start (page_content doc)),
             metadata =
               (if add_start_index cfg
                then AList.update ''start_index'' (MInt (int start)) (metadata doc)
                else metadata doc)\<rparr>)
       (window_starts (chunk_size cfg) (chunk_overlap cfg) (length (page_content doc)) 0)"

definition split_documents :: "splitter_config \<Rightarrow> document list \<Rightarrow> document list" where
  "split_documents cfg docs = concat (map (split_document cfg) docs)"

definition legalbench_rag_chunks :: "document list \<Rightarrow> document list" where
  "legalbench_rag_chunks docs = split_documents text_splitter docs"

text \<open>The start offset a chunk records.\<close>

definition start_index :: "document \<Rightarrow> meta_value option" where
  "start_index chunk = map_of (metadata chunk) ''start_index''"

subsection \<open>Cell 7: filling the vector store\<close>

text \<open>
  A row of the store's table: the text, its metadata and its embedding, under the row's
  identifier.
\<close>

record 'e row =
  rowid :: nat
  row_text :: string
  row_metadata :: metadata_dict
  text_embedding :: 'e

text \<open>
  Modelled from the spec: the vector store is the collaborator \<^verbatim>\<open>SQLiteVec\<close> of
  langchain, which the notebook only calls; the spec (3, 4.3) gives its upsert as
  \<^verbatim>\<open>upsert(texts, metadata_list)\<close>, storing (text, embedding, metadata) triples under
  identifiers generated at insertion. The library's method is
  \<^verbatim>\<open>add_texts(self, texts, metadatas=None, **kwargs)\<close>: a keyword argument of any other
  name lands in \<^verbatim>\<open>kwargs\<close>, which the method does not read, and without \<^verbatim>\<open>metadatas\<close>
  every text is stored with the empty dictionary. The identifiers are the table's row
  numbers, continuing after the largest one present. \<open>embedding\<close> is the embedding model (\<^verbatim>\<open>embedding=embeddings\<close>).
\<close>

definition add_texts ::
  "(string \<Rightarrow> 'e) \<Rightarrow> 'e row list \<Rightarrow> string list \<Rightarrow> metadata_dict list option \<Rightarrow>
     (string \<times> metadata_dict list) list \<Rightarrow> 'e row list"
where
  "add_texts embedding store texts metadatas kwargs =
     (let max_id = fold max (map rowid store) 0;
          metas = (case metadatas of
                     None \<Rightarrow> map (\<lambda>_. []) texts
                   | Some ms \<Rightarrow> if ms = [] then map (\<lambda>_. []) texts else ms)
      in store @
         map (\<lambda>(i, t, m). \<lparr>rowid = max_id + 1 + i, row_text = t, row_metadata = m,
                            text_embedding = embedding t\<rparr>)
           (zip [0..<length texts] (zip texts metas)))"

text \<open>
  \<^verbatim>\<open>
  for i in tqdm(range(0, len(legalbench_rag_chunks), batch_size)):
      batch_texts = [chunk.page_content for chunk in legalbench_rag_chunks[i:i+batch_size]]
      batch_metadata = [chunk.metadata for chunk in legalbench_rag_chunks[i:i+batch_size]]
      legalbench_rag_vector_store.add_texts(
          texts=batch_texts,
          metdata=batch_metadata
      )
  \<close>
  The call names its second argument \<^verbatim>\<open>metdata\<close>: the parameter \<^verbatim>\<open>metadatas\<close> of the
  method keeps its default \<^verbatim>\<open>None\<close>, and the list travels in the other keyword arguments.
\<close>

function index_batches ::
  "(string \<Rightarrow> 'e) \<Rightarrow> document list \<Rightarrow> nat \<Rightarrow> nat \<Rightarrow> 'e row list \<Rightarrow> 'e row list"
where
  "index_batches embedding chunks batch_size i store =
     (if 0 < batch_size \<and> i < length chunks then
        (let batch_texts = map page_content (take batch_size (drop i chunks));
             batch_metadata = map metadata (take batch_size (drop i chunks))
         in index_batches embedding chunks batch_size (i + batch_size)
              (add_texts embedding store batch_texts None [(''metdata'', batch_metadata)]))
      else store)"
  by pat_completeness auto
termination
  by (relation "measure (\<lambda>(embedding, chunks, batch_size, i, store). length chunks - i)") auto

declare index_batches.simps [simp del]

text \<open>
  \<^verbatim>\<open>
  uuids = [str(uuid4()) for _ in range(len(legalbench_rag_chunks))]
  batch_size = 1000
  \<close>
  then the loop, on the store just created (empty). \<open>uuid4 k\<close> is the \<open>k\<close>-th identifier
  the generator returns; the cell never reads \<^verbatim>\<open>uuids\<close> again.
\<close>

definition legalbench_rag_vector_store ::
  "(string \<Rightarrow> 'e) \<Rightarrow> (nat \<Rightarrow> string) \<Rightarrow> document list \<Rightarrow> 'e row list"
where
  "legalbench_rag_vector_store embedding uuid4 chunks =
     (let uuids = map uuid4 [0..<length chunks];
          batch_size = 1000
      in index_batches embedding chunks batch_size 0 [])"

subsection \<open>Cell 8: sampling the queries\<close>

text \<open>
  Python's module \<^verbatim>\<open>random\<close> keeps one generator state for the process. \<open>random_seed a g\<close>
  is the state after \<^verbatim>\<open>random.seed(a)\<close> in state \<open>g\<close>, and \<open>random_sample g n k\<close> is the
  list \<^verbatim>\<open>random.sample(range(n), k)\<close> returns in state \<open>g\<close> with the state it leaves.
\<close>

record 'g random_module =
  random_seed :: "int \<Rightarrow> 'g \<Rightarrow> 'g"
  random_sample :: "'g \<Rightarrow> nat \<Rightarrow> nat \<Rightarrow> nat list \<times> 'g"

text \<open>
  \<^verbatim>\<open>
  for index in sampled_indices:
      legalbench_rag_subset.append(legalbench_rag_qa[index])
  \<close>
  \<open>sub\<close> is the subset built so far; an index past the end of the list raises.
\<close>

fun subset_loop :: "qa list \<Rightarrow> nat list \<Rightarrow> qa list \<Rightarrow> py_error + qa list" where
  "subset_loop qas [] sub = Inr sub"
| "subset_loop qas (index # rest) sub =
     (if index < length qas then subset_loop qas rest (sub @ [qas ! index])
      else Inl IndexError)"

text \<open>
  \<^verbatim>\<open>
  random.seed(100)
  sampled_indices = random.sample(range(6889), 100)
  available_indices = set(range(6889)) - set(sampled_indices)
  \<close>
  and the loop. The cell leaves the sampled indices, the remaining indices, the sampled
  subset (or the exception) and the generator's state.
\<close>

definition sampling_cell ::
  "'g random_module \<Rightarrow> 'g \<Rightarrow> qa list \<Rightarrow> nat list \<times> nat set \<times> (py_error + qa list) \<times> 'g"
where
  "sampling_cell rnd g qas =
     (let g1 = random_seed rnd 100 g;
          (sampled_indices, g2) = random_sample rnd g1 6889 100;
          available_indices = set [0..<6889] - set sampled_indices
      in (sampled_indices, available_indices, subset_loop qas sampled_indices [], g2))"

definition sampled_indices :: "'g random_module \<Rightarrow> 'g \<Rightarrow> nat list" where
  "sampled_indices rnd g = fst (sampling_cell rnd g [])"

definition legalbench_rag_subset :: "'g random_module \<Rightarrow> 'g \<Rightarrow> qa list \<Rightarrow> py_error + qa list" where
  "legalbench_rag_subset rnd g qas = fst (snd (snd (sampling_cell rnd g qas)))"

subsection \<open>Cell 9: retrieval and generation\<close>

record 'c result = query_rec +
  ground_truth_answer :: "string list"
  generated_answer :: string
  retrieved_chunks :: "'c list"

text \<open>The prompt template with \<^verbatim>\<open>{question}\<close> and \<^verbatim>\<open>{context}\<close> filled in.\<close>

definition format_prompt :: "string \<Rightarrow> string \<Rightarrow> string" where
  "format_prompt question context =
     ''Answer the following question:'' @ ''\<newline>\<newline>\<newline>\<newline>'' @
     question @ ''\<newline>\<newline>\<newline>\<newline>\<newline>'' @
     ''Using the following list of context passages:'' @ ''\<newline>\<newline>\<newline>\<newline>'' @
     context @ ''\<newline>\<newline>\<newline>''"

text \<open>
  \<^verbatim>\<open>
  retrieved_context = ""
  for context in retrieved_chunks:
      retrieved_context += context.page_content + "\n\n"
  \<close>
\<close>

fun context_loop :: "document list \<Rightarrow> string \<Rightarrow> string" where
  "context_loop [] retrieved_context = retrieved_context"
| "context_loop (context # rest) retrieved_context =
     context_loop rest (retrieved_context @ page_content context @ ''\<newline>\<newline>'')"

text \<open>
  The loop over the sampled subset. \<open>similarity_search q k\<close> is the store's answer to the
  query \<open>q\<close> for \<open>k\<close> chunks and \<open>invoke p\<close> the content of the generator's response to
  the prompt \<open>p\<close>; both are collaborators.
\<close>

fun pipeline_loop ::
  "(string \<Rightarrow> nat \<Rightarrow> document list) \<Rightarrow> (string \<Rightarrow> string) \<Rightarrow> qa list \<Rightarrow>
     document result list \<Rightarrow> document result list"
where
  "pipeline_loop similarity_search invoke [] results = results"
| "pipeline_loop similarity_search invoke (qa # rest) results =
     (let chunks = similarity_search (query qa) 10;
          retrieved_context = context_loop chunks '''';
          prompt_message = format_prompt (query qa) retrieved_context;
          response = invoke prompt_message;
          result = \<lparr>query_id = query_id qa, query = query qa,
                    ground_truth_answer = answers qa,
                    generated_answer = response,
                    retrieved_chunks = chunks\<rparr>
      in pipeline_loop similarity_search invoke rest (results @ [result]))"

definition results ::
  "(string \<Rightarrow> nat \<Rightarrow> document list) \<Rightarrow> (string \<Rightarrow> string) \<Rightarrow> qa list \<Rightarrow> document result list"
where
  "results similarity_search invoke sub = pipeline_loop similarity_search invoke sub []"

subsection \<open>Cells 10 and 11: the JSON checkpoint\<close>

text \<open>
  \<^verbatim>\<open>
  for res in results:
      serializable_res = res.copy()
      serializable_res["retrieved_chunks"] =
          [{"page_content": chunk.page_content} for chunk in res["retrieved_chunks"]]
      serializable_results.append(serializable_res)
  \<close>
\<close>

definition serializable_res :: "document result \<Rightarrow> page result" where
  "serializable_res res =
     \<lparr>query_id = query_id res, query = query res,
      ground_truth_answer = ground_truth_answer res,
      generated_answer = generated_answer res,
      retrieved_chunks =
        map (\<lambda>chunk. \<lparr>page_content = page_content chunk\<rparr>) (retrieved_chunks res)\<rparr>"

fun serializable_loop :: "document result list \<Rightarrow> page result list \<Rightarrow> page result list" where
  "serializable_loop [] out = out"
| "serializable_loop (res # rest) out = serializable_loop rest (out @ [serializable_res res])"

definition serializable_results :: "document result list \<Rightarrow> page result list" where
  "serializable_results rs = serializable_loop rs []"

text \<open>
  \<^verbatim>\<open>json.dump(serializable_results, file, indent=4)\<close>: a dictionary becomes an object with
  its keys in insertion order, a list a list, a string a string and an integer an integer.
\<close>

definition dump_page :: "page \<Rightarrow> json" where
  "dump_page chunk = JObj [(''page_content'', JStr (page_content chunk))]"

definition dump_result :: "page result \<Rightarrow> json" where
  "dump_result res =
     JObj [(''query_id'', JInt (query_id res)),
           (''query'', JStr (query res)),
           (''ground_truth_answer'', JList (map JStr (ground_truth_answer res))),
           (''generated_answer'', JStr (generated_answer res)),
           (''retrieved_chunks'', JList (map dump_page (retrieved_chunks res)))]"

definition json_dump :: "page result list \<Rightarrow> json" where
  "json_dump rs = JList (map dump_result rs)"

definition results_path :: string where
  "results_path = ''./Output_Files/legalbench_rag_results.json''"

text \<open>The cell that writes the checkpoint.\<close>

definition save_results :: "filesystem \<Rightarrow> document result list \<Rightarrow> filesystem" where
  "save_results fs rs =
     fs\<lparr>json_files := (json_files fs)(results_path \<mapsto> json_dump (serializable_results rs))\<rparr>"

text \<open>
  \<^verbatim>\<open>json_results = json.load(file)\<close>. The later cells read each entry by the keys
  \<^verbatim>\<open>query_id\<close>, \<^verbatim>\<open>query\<close>, \<^verbatim>\<open>ground_truth_answer\<close>, \<^verbatim>\<open>generated_answer\<close>,
  \<^verbatim>\<open>retrieved_chunks\<close> and each chunk by \<^verbatim>\<open>page_content\<close>; the model reads them here,
  once, and a key that is missing or a value of another kind is the exception the first
  such read raises.
\<close>

fun getitem :: "json \<Rightarrow> string \<Rightarrow> py_error + json" where
  "getitem (JObj items) key =
     (case map_of items key of None \<Rightarrow> Inl (KeyError key) | Some v \<Rightarrow> Inr v)"
| "getitem _ key = Inl TypeError"

fun load_int :: "json \<Rightarrow> py_error + int" where
  "load_int (JInt i) = Inr i"
| "load_int _ = Inl TypeError"

fun load_str :: "json \<Rightarrow> py_error + string" where
  "load_str (JStr s) = Inr s"
| "load_str _ = Inl TypeError"

fun and_then :: "py_error + 'a \<Rightarrow> ('a \<Rightarrow> py_error + 'b) \<Rightarrow> py_error + 'b" where
  "and_then (Inl e) f = Inl e"
| "and_then (Inr x) f = f x"

fun load_each :: "(json \<Rightarrow> py_error + 'a) \<Rightarrow> json list \<Rightarrow> py_error + 'a list" where
  "load_each f [] = Inr []"
| "load_each f (j # js) =
     and_then (f j) (\<lambda>x. and_then (load_each f js) (\<lambda>xs. Inr (x # xs)))"

fun load_list :: "(json \<Rightarrow> py_error + 'a) \<Rightarrow> json \<Rightarrow> py_error + 'a list" where
  "load_list f (JList js) = load_each f js"
| "load_list f _ = Inl TypeError"

definition load_page :: "json \<Rightarrow> py_error + page" where
  "load_page j =
     and_then (and_then (getitem j ''page_content'') load_str)
       (\<lambda>s. Inr \<lparr>page_content = s\<rparr>)"

definition load_result :: "json \<Rightarrow> py_error + page result" where
  "load_result j =
     and_then (and_then (getitem j ''query_id'') load_int) (\<lambda>i.
     and_then (and_then (getitem j ''query'') load_str) (\<lambda>q.
     and_then (and_then (getitem j ''ground_truth_answer'') (load_list load_str)) (\<lambda>gt.
     and_then (and_then (getitem j ''generated_answer'') load_str) (\<lambda>ga.
     and_then (and_then (getitem j ''retrieved_chunks'') (load_list load_page)) (\<lambda>cs.
       Inr \<lparr>query_id = i, query = q, ground_truth_answer = gt,
            generated_answer = ga, retrieved_chunks = cs\<rparr>)))))"

definition json_load :: "json \<Rightarrow> py_error + page result list" where
  "json_load j = load_list load_result j"

definition json_results :: "filesystem \<Rightarrow> py_error + page result list" where
  "json_results fs =
     (case json_files fs results_path of
        None \<Rightarrow> Inl (FileNotFoundError results_path)
      | Some j \<Rightarrow> json_load j)"

subsection \<open>Cell 12: the RAGChecker format\<close>

text \<open>
  The entry of \<^verbatim>\<open>retrieved_context\<close>, \<^verbatim>\<open>{"text": ...}\<close> (the field is \<open>passage\<close>, since
  the key's name is a keyword of the theory language), and the formatted result with the
  keys \<^verbatim>\<open>query_id\<close> (a string here: the field \<open>rc_query_id\<close>), \<^verbatim>\<open>query\<close> (the field
  \<open>rc_query\<close>), \<^verbatim>\<open>gt_answer\<close>, \<^verbatim>\<open>response\<close> and \<^verbatim>\<open>retrieved_context\<close>.
\<close>

record context_entry =
  passage :: string

record formatted_res =
  rc_query_id :: string
  rc_query :: string
  gt_answer :: string
  response :: string
  retrieved_context :: "context_entry list"

text \<open>
  \<^verbatim>\<open>str\<close> of an integer: the decimal digits, after a minus sign for a negative one.
\<close>

definition digit_char :: "nat \<Rightarrow> char" where
  "digit_char d = ''0123456789'' ! d"

fun nat_digits :: "nat \<Rightarrow> string" where
  "nat_digits n =
     (if n < 10 then [digit_char n] else nat_digits (n div 10) @ [digit_char (n mod 10)])"

definition str :: "int \<Rightarrow> string" where
  "str i = (if i < 0 then CHR ''-'' # nat_digits (nat (- i)) else nat_digits (nat i))"

text \<open>
  \<^verbatim>\<open>
  for chunk in res["retrieved_chunks"]:
      formatted_res["retrieved_context"].append({"text": chunk["page_content"]})
  \<close>
\<close>

fun context_entries :: "page list \<Rightarrow> context_entry list \<Rightarrow> context_entry list" where
  "context_entries [] ctx = ctx"
| "context_entries (chunk # rest) ctx =
     context_entries rest (ctx @ [\<lparr>passage = page_content chunk\<rparr>])"

text \<open>
  \<^verbatim>\<open>
  for res in json_results:
      if (len(res["ground_truth_answer"]) > 0):
          formatted_res = {
              "query_id": str(res["query_id"]),
              "query": res["query"],
              "gt_answer": res["ground_truth_answer"][0],
              "response": res["generated_answer"],
              "retrieved_context": []
          }
          for chunk in res["retrieved_chunks"]: ...
          ragchecker_results["results"].append(formatted_res)
  \<close>
\<close>

definition format_res :: "page result \<Rightarrow> formatted_res" where
  "format_res res =
     \<lparr>rc_query_id = str (query_id res),
      rc_query = query res,
      gt_answer = ground_truth_answer res ! 0,
      response = generated_answer res,
      retrieved_context = context_entries (retrieved_chunks res) []\<rparr>"

fun ragchecker_loop :: "page result list \<Rightarrow> formatted_res list \<Rightarrow> formatted_res list" where
  "ragchecker_loop [] out = out"
| "ragchecker_loop (res # rest) out =
     (if length (ground_truth_answer res) > 0
      then ragchecker_loop rest (out @ [format_res res])
      else ragchecker_loop rest out)"

text \<open>The list under the key \<^verbatim>\<open>results\<close> of \<^verbatim>\<open>ragchecker_results\<close>.\<close>

definition ragchecker_results :: "page result list \<Rightarrow> formatted_res list" where
  "ragchecker_results rs = ragchecker_loop rs []"

subsection \<open>Cell 18: the RAGAs loop and its metric accumulator\<close>

text \<open>
  \<^verbatim>\<open>SingleTurnSample(user_input, response, reference, retrieved_contexts)\<close>; its
  \<^verbatim>\<open>response\<close> is the field \<open>sample_response\<close>.
\<close>

record single_turn_sample =
  user_input :: string
  sample_response :: string
  reference :: string
  retrieved_contexts :: "string list"

text \<open>
  The numbers of the cell: the accumulator starts at the integer \<^verbatim>\<open>0\<close>, the scores are
  floats, and the cell applies \<^verbatim>\<open>+\<close> and \<^verbatim>\<open>/\<close> to them. \<open>py_int i\<close> is the number an
  integer literal denotes, \<open>py_add\<close> is \<^verbatim>\<open>+\<close> and \<open>py_truediv\<close> is \<^verbatim>\<open>/\<close>; the model
  applies them in the order the cell does and assumes no law of them.
\<close>

record 'f arithmetic =
  py_int :: "int \<Rightarrow> 'f"
  py_add :: "'f \<Rightarrow> 'f \<Rightarrow> 'f"
  py_truediv :: "'f \<Rightarrow> 'f \<Rightarrow> 'f"

text \<open>
  The three scoring functions of the framework (\<^verbatim>\<open>single_turn_ascore\<close> of each metric),
  collaborators that return a number for a sample.
\<close>

record 'f scorers =
  faithfulness :: "single_turn_sample \<Rightarrow> 'f"
  answer_relevance :: "single_turn_sample \<Rightarrow> 'f"
  context_relevance :: "single_turn_sample \<Rightarrow> 'f"

text \<open>\<^verbatim>\<open>metrics[label] += v\<close>, on a key the dictionary holds.\<close>

definition add_to ::
  "'f arithmetic \<Rightarrow> (string \<times> 'f) list \<Rightarrow> string \<Rightarrow> 'f \<Rightarrow> (string \<times> 'f) list"
where
  "add_to ar metrics label v = AList.map_entry label (\<lambda>total. py_add ar total v) metrics"

text \<open>
  \<^verbatim>\<open>
  sample = SingleTurnSample(
      user_input=rag_result["query"],
      response=rag_result["generated_answer"],
      reference=rag_result["ground_truth_answer"][0],
      retrieved_contexts=[context["page_content"] for context in rag_result["retrieved_chunks"]])
  \<close>
  The first ground-truth answer is read with no check: an empty list raises.
\<close>

definition single_turn :: "page result \<Rightarrow> py_error + single_turn_sample" where
  "single_turn rag_result =
     (case ground_truth_answer rag_result of
        [] \<Rightarrow> Inl IndexError
      | first # _ \<Rightarrow>
          Inr \<lparr>user_input = query rag_result,
               sample_response = generated_answer rag_result,
               reference = first,
               retrieved_contexts = map page_content (retrieved_chunks rag_result)\<rparr>)"

text \<open>
  \<^verbatim>\<open>
  for rag_result in tqdm(json_results):
      sample = ...
      metrics["faithfulness"] += await faithfulness.single_turn_ascore(sample)
      metrics["answer_relevance"] += await answer_relevance.single_turn_ascore(sample)
      metrics["context_relevance"] += await context_relevance.single_turn_ascore(sample)
  \<close>
\<close>

fun ragas_loop ::
  "'f arithmetic \<Rightarrow> 'f scorers \<Rightarrow> page result list \<Rightarrow> (string \<times> 'f) list \<Rightarrow>
     py_error + (string \<times> 'f) list"
where
  "ragas_loop ar sc [] metrics = Inr metrics"
| "ragas_loop ar sc (rag_result # rest) metrics =
     (case single_turn rag_result of
        Inl e \<Rightarrow> Inl e
      | Inr sample \<Rightarrow>
          (let m1 = add_to ar metrics ''faithfulness'' (faithfulness sc sample);
               m2 = add_to ar m1 ''answer_relevance'' (answer_relevance sc sample);
               m3 = add_to ar m2 ''context_relevance'' (context_relevance sc sample)
           in ragas_loop ar sc rest m3))"

text \<open>
  \<^verbatim>\<open>
  for metric_label in list(metrics.keys()):
      metrics[metric_label] /= 100
  \<close>
\<close>

fun average_loop ::
  "'f arithmetic \<Rightarrow> string list \<Rightarrow> (string \<times> 'f) list \<Rightarrow> (string \<times> 'f) list"
where
  "average_loop ar [] metrics = metrics"
| "average_loop ar (metric_label # rest) metrics =
     average_loop ar rest
       (AList.map_entry metric_label (\<lambda>total. py_truediv ar total (py_int ar 100)) metrics)"

text \<open>The cell: the accumulator starts at \<^verbatim>\<open>0\<close> for each of the three metrics.\<close>

definition ragas_metrics ::
  "'f arithmetic \<Rightarrow> 'f scorers \<Rightarrow> page result list \<Rightarrow> py_error + (string \<times> 'f) list"
where
  "ragas_metrics ar sc rs =
     (case ragas_loop ar sc rs
             [(''faithfulness'', py_int ar 0), (''answer_relevance'', py_int ar 0),
              (''context_relevance'', py_int ar 0)] of
        Inl e \<Rightarrow> Inl e
      | Inr metrics \<Rightarrow> Inr (average_loop ar (map fst metrics) metrics))"

text \<open>
  The sample built for a result that has a ground-truth answer, and the running sum of a
  metric over a list of results as the loop forms it (from \<^verbatim>\<open>0\<close>, adding each score on
  the right in list order), used to state what the accumulator holds.
\<close>

definition sample_of :: "page result \<Rightarrow> single_turn_sample" where
  "sample_of rag_result =
     \<lparr>user_input = query rag_result,
      sample_response = generated_answer rag_result,
      reference = (case ground_truth_answer rag_result of [] \<Rightarrow> [] | first # _ \<Rightarrow> first),
      retrieved_contexts = map page_content (retrieved_chunks rag_result)\<rparr>"

definition running_sum ::
  "'f arithmetic \<Rightarrow> (single_turn_sample \<Rightarrow> 'f) \<Rightarrow> 'f \<Rightarrow> page result list \<Rightarrow> 'f"
where
  "running_sum ar metric start rs =
     foldl (\<lambda>total rag_result. py_add ar total (metric (sample_of rag_result))) start rs"

subsection \<open>Cells 16 and 20: the shared results file\<close>

datatype open_mode = W | APlus

text \<open>
  \<^verbatim>\<open>with open(path, mode, encoding="utf-8") as file: file.write(data)\<close>: mode \<^verbatim>\<open>"w"\<close>
  truncates the file before writing, mode \<^verbatim>\<open>"a+"\<close> writes after what the file holds (a
  file that does not exist is created empty in both modes).
\<close>

definition write_file :: "filesystem \<Rightarrow> string \<Rightarrow> open_mode \<Rightarrow> string \<Rightarrow> filesystem" where
  "write_file fs path mode data =
     (case mode of
        W \<Rightarrow> fs\<lparr>files := (files fs)(path \<mapsto> data)\<rparr>
      | APlus \<Rightarrow>
          fs\<lparr>files := (files fs)(path \<mapsto>
                (case files fs path of None \<Rightarrow> [] | Some old \<Rightarrow> old) @ data)\<rparr>)"

definition framework_results_path :: string where
  "framework_results_path = ''./Output_Files/legalbench_rag_framework_results.txt''"

text \<open>
  \<^verbatim>\<open>
  with open("./Output_Files/legalbench_rag_framework_results.txt", "w", ...) as file:
      file.write("RAGChecker results:\n\n" + str(rag_results))
  \<close>
  \<open>rag_results_str\<close> is \<^verbatim>\<open>str(rag_results)\<close>.
\<close>

definition write_ragchecker :: "filesystem \<Rightarrow> string \<Rightarrow> filesystem" where
  "write_ragchecker fs rag_results_str =
     write_file fs framework_results_path W
       (''RAGChecker results:\<newline>\<newline>'' @ rag_results_str)"

text \<open>
  \<^verbatim>\<open>
  with open("./Output_Files/legalbench_rag_framework_results.txt", "a+", ...) as file:
      file.write("\n\nRAGAs results:\n\n" + str(metrics))
  \<close>
  \<open>metrics_str\<close> is \<^verbatim>\<open>str(metrics)\<close>.
\<close>

definition write_ragas :: "filesystem \<Rightarrow> string \<Rightarrow> filesystem" where
  "write_ragas fs metrics_str =
     write_file fs framework_results_path APlus
       (''\<newline>\<newline>RAGAs results:\<newline>\<newline>'' @ metrics_str)"

text \<open>What the shared results file holds (nothing when it does not exist).\<close>

definition framework_results :: "filesystem \<Rightarrow> string" where
  "framework_results fs =
     (case files fs framework_results_path of None \<Rightarrow> [] | Some s \<Rightarrow> s)"

subsection \<open>Concrete inputs\<close>

text \<open>Small inputs on which the properties below are evaluated.\<close>

definition res_AB :: "page result" where
  "res_AB = \<lparr>query_id = 7, query = ''q'', ground_truth_answer = [''A'', ''B''],
             generated_answer = ''g'', retrieved_chunks = [\<lparr>page_content = ''c''\<rparr>]\<rparr>"

definition res_none :: "page result" where
  "res_none = \<lparr>query_id = 8, query = ''r'', ground_truth_answer = [],
               generated_answer = ''h'', retrieved_chunks = []\<rparr>"

definition fs_two_dirs :: filesystem where
  "fs_two_dirs =
     \<lparr>dirs = [''d1/'' \<mapsto> [''a.txt'', ''notes.md''], ''d2/'' \<mapsto> [''b.txt'']],
      files = [''d1/a.txt'' \<mapsto> ''first text'', ''d2/b.txt'' \<mapsto> ''second text''],
      json_files = Map.empty\<rparr>"

definition chunk_c :: document where
  "chunk_c = \<lparr>page_content = ''c'',
              metadata = [(''source_dataset'', MStr ''d1/''), (''filename'', MStr ''a.txt''),
                          (''start_index'', MInt 0)]\<rparr>"

definition result_one :: "document result" where
  "result_one = \<lparr>query_id = 7, query = ''q'', ground_truth_answer = [''A'', ''B''],
                 generated_answer = ''g'', retrieved_chunks = [chunk_c]\<rparr>"

definition result_two :: "document result" where
  "result_two = \<lparr>query_id = 3, query = ''r'', ground_truth_answer = [],
                 generated_answer = ''h'', retrieved_chunks = []\<rparr>"

definition fs_empty :: filesystem where
  "fs_empty = \<lparr>dirs = Map.empty, files = Map.empty, json_files = Map.empty\<rparr>"

definition bench_files :: "string \<rightharpoonup> benchmark_data" where
  "bench_files =
     [''b1.json'' \<mapsto>
        \<lparr>tests = [\<lparr>example.query = ''q1'',
                    snippets = [\<lparr>answer = ''a1'', file_path = ''f1.txt''\<rparr>]\<rparr>,
                  \<lparr>example.query = ''q2'', snippets = []\<rparr>]\<rparr>,
      ''b2.json'' \<mapsto>
        \<lparr>tests = [\<lparr>example.query = ''q3'',
                    snippets = [\<lparr>answer = ''a3'', file_path = ''f3.txt''\<rparr>,
                                \<lparr>answer = ''a4'', file_path = ''f4.txt''\<rparr>]\<rparr>]\<rparr>]"

text \<open>
  A small generator with the interface of the module \<^verbatim>\<open>random\<close>: seeding sets the state
  to the seed's magnitude, and a sample of \<open>k\<close> from \<open>range(n)\<close> reads \<open>k\<close> consecutive
  states.
\<close>

definition counter_random :: "nat random_module" where
  "counter_random =
     \<lparr>random_seed = (\<lambda>a g. nat \<bar>a\<bar>),
      random_sample = (\<lambda>g n k. (map (\<lambda>i. (g + i) mod n) [0..<k], g + k))\<rparr>"

definition fs_old_block :: filesystem where
  "fs_old_block =
     \<lparr>dirs = Map.empty,
      files = [framework_results_path \<mapsto> ''ARES results: earlier block''],
      json_files = Map.empty\<rparr>"

text \<open>
  Exact arithmetic on the reals, one instance of the operations (Python's floats are
  another), and scorers that give every sample the scores 1, 1/2 and 0.
\<close>

definition exact_arithmetic :: "real arithmetic" where
  "exact_arithmetic = \<lparr>py_int = of_int, py_add = (+), py_truediv = (/)\<rparr>"

definition unit_scorers :: "real scorers" where
  "unit_scorers =
     \<lparr>faithfulness = (\<lambda>sample. 1), answer_relevance = (\<lambda>sample. 1 / 2),
      context_relevance = (\<lambda>sample. 0)\<rparr>"

definition doc_3000 :: document where
  "doc_3000 = \<lparr>page_content = replicate 3000 CHR ''a'',
               metadata = [(''source_dataset'', MStr ''d1/''), (''filename'', MStr ''a.txt'')]\<rparr>"

definition doc_1000 :: document where
  "doc_1000 = \<lparr>page_content = replicate 1000 CHR ''b'',
               metadata = [(''source_dataset'', MStr ''d2/''), (''filename'', MStr ''b.txt'')]\<rparr>"

section \<open>Properties\<close>

subsection \<open>The RAGChecker formatter\<close>

lemma context_entries_eq:
  "context_entries chunks ctx = ctx @ map (\<lambda>chunk. \<lparr>passage = page_content chunk\<rparr>) chunks"
  by (induction chunks arbitrary: ctx) simp_all

lemma ragchecker_loop_eq:
  "ragchecker_loop rs out =
     out @ map format_res (filter (\<lambda>res. ground_truth_answer res \<noteq> []) rs)"
  by (induction rs arbitrary: out) simp_all

lemma str_7: "str 7 = ''7''"
  by (simp add: str_def digit_char_def)

text \<open>
  Claim C4. A result whose list \<^verbatim>\<open>ground_truth_answer\<close> is not empty is formatted into
  one entry whose \<^verbatim>\<open>gt_answer\<close> is the first element of that list; the other elements
  appear nowhere in the entry. The entry stands in the output between the entries of the
  results before it and of those after it.
\<close>

theorem formatter_takes_first_answer:
  assumes "ground_truth_answer res = first # others"
  shows "ragchecker_results (before @ [res] @ after) =
           ragchecker_results before @
           [\<lparr>rc_query_id = str (query_id res), rc_query = query res, gt_answer = first,
             response = generated_answer res,
             retrieved_context =
               map (\<lambda>chunk. \<lparr>passage = page_content chunk\<rparr>) (retrieved_chunks res)\<rparr>] @
           ragchecker_results after"
  using assms
  by (simp add: ragchecker_results_def ragchecker_loop_eq format_res_def context_entries_eq)

text \<open>
  The formatter scenario of the spec: the ground truth \<^verbatim>\<open>["A", "B"]\<close> gives
  \<^verbatim>\<open>gt_answer = "A"\<close>.
\<close>

theorem formatter_takes_first_answer_witness:
  "ground_truth_answer res_AB = ''A'' # [''B''] \<and>
   ragchecker_results [res_none, res_AB] =
     [\<lparr>rc_query_id = ''7'', rc_query = ''q'', gt_answer = ''A'', response = ''g'',
       retrieved_context = [\<lparr>passage = ''c''\<rparr>]\<rparr>]"
proof -
  have gt: "ground_truth_answer res_AB = ''A'' # [''B'']"
    by (simp add: res_AB_def)
  have none: "ragchecker_results [res_none] = []"
    by (simp add: ragchecker_results_def res_none_def)
  have nil: "ragchecker_results [] = []"
    by (simp add: ragchecker_results_def)
  from formatter_takes_first_answer [OF gt, of "[res_none]" "[]"]
  show ?thesis
    by (simp add: gt none nil str_7) (simp add: res_AB_def str_7)
qed

text \<open>
  Claim C10. The formatted list holds exactly the entries of the results whose list
  \<^verbatim>\<open>ground_truth_answer\<close> is not empty, in input order: a result with an empty list
  leaves no entry of any form.
\<close>

theorem formatter_omits_empty_ground_truth:
  "ragchecker_results rs =
     map format_res (filter (\<lambda>res. ground_truth_answer res \<noteq> []) rs)"
  by (simp add: ragchecker_results_def ragchecker_loop_eq)

text \<open>A result with no ground truth between two with one leaves two entries.\<close>

theorem formatter_omits_empty_ground_truth_witness:
  "map gt_answer (ragchecker_results [res_AB, res_none, res_AB]) = [''A'', ''A'']"
  using formatter_omits_empty_ground_truth [of "[res_AB, res_none, res_AB]"]
  by (simp add: res_AB_def res_none_def format_res_def)

subsection \<open>The corpus loader\<close>

lemma load_folder_eq:
  assumes "\<forall>file\<in>set entries. endswith file ''.txt'' \<longrightarrow> files fs (folder @ file) \<noteq> None"
  shows "load_folder fs folder entries docs =
           Inr (docs @ map (loaded_doc fs folder)
                         (filter (\<lambda>file. endswith file ''.txt'') entries))"
  using assms
  by (induction entries arbitrary: docs) (auto simp: loaded_doc_def)

lemma load_directories_eq:
  assumes "\<forall>folder\<in>set ds. dirs fs folder \<noteq> None"
    and "\<forall>folder\<in>set ds. \<forall>file\<in>set (txt_entries fs folder). files fs (folder @ file) \<noteq> None"
  shows "load_directories fs ds docs =
           Inr (docs @ concat (map (\<lambda>folder. map (loaded_doc fs folder) (txt_entries fs folder)) ds))"
  using assms
proof (induction ds arbitrary: docs)
  case Nil
  then show ?case by simp
next
  case (Cons folder rest)
  from Cons.prems(1) obtain entries where e: "dirs fs folder = Some entries"
    by auto
  have t: "txt_entries fs folder = filter (\<lambda>file. endswith file ''.txt'') entries"
    by (simp add: txt_entries_def e)
  have "\<forall>file\<in>set entries. endswith file ''.txt'' \<longrightarrow> files fs (folder @ file) \<noteq> None"
    using Cons.prems(2) by (simp add: t)
  then have f: "load_folder fs folder entries docs =
      Inr (docs @ map (loaded_doc fs folder) (txt_entries fs folder))"
    by (simp add: load_folder_eq t)
  show ?case
    using Cons.prems by (simp add: e f Cons.IH)
qed

text \<open>
  Claim C9. When every directory of the list can be listed and every entry ending in
  \<^verbatim>\<open>.txt\<close> can be opened under the path \<^verbatim>\<open>folder + file\<close>, the loader returns one
  document per such entry, in directory order and then listing order: their number is the
  total number of text files, the metadata of each is its directory path under
  \<^verbatim>\<open>source_dataset\<close> and its file name under \<^verbatim>\<open>filename\<close>, and its content is the
  file's text.
\<close>

theorem corpus_loader_one_document_per_text_file:
  assumes "\<forall>folder\<in>set ds. dirs fs folder \<noteq> None"
    and "\<forall>folder\<in>set ds. \<forall>file\<in>set (txt_entries fs folder). files fs (folder @ file) \<noteq> None"
  shows "\<exists>docs. legalbench_rag_retrieval_docs fs ds = Inr docs \<and>
           length docs = sum_list (map (\<lambda>folder. length (txt_entries fs folder)) ds) \<and>
           map metadata docs =
             concat (map (\<lambda>folder.
                            map (\<lambda>file. [(''source_dataset'', MStr folder), (''filename'', MStr file)])
                              (txt_entries fs folder)) ds) \<and>
           map (\<lambda>doc. Some (page_content doc)) docs =
             concat (map (\<lambda>folder. map (\<lambda>file. files fs (folder @ file)) (txt_entries fs folder)) ds)"
proof -
  let ?docs = "concat (map (\<lambda>folder. map (loaded_doc fs folder) (txt_entries fs folder)) ds)"
  have run: "legalbench_rag_retrieval_docs fs ds = Inr ?docs"
    using load_directories_eq [OF assms, of "[]"]
    by (simp add: legalbench_rag_retrieval_docs_def)
  have len: "length ?docs = sum_list (map (\<lambda>folder. length (txt_entries fs folder)) ds)"
    by (simp add: length_concat comp_def)
  have meta: "map metadata ?docs =
      concat (map (\<lambda>folder.
                     map (\<lambda>file. [(''source_dataset'', MStr folder), (''filename'', MStr file)])
                       (txt_entries fs folder)) ds)"
    by (simp add: map_concat comp_def loaded_doc_def)
  have one: "Some (page_content (loaded_doc fs d n)) = files fs (d @ n)"
    if "d \<in> set ds" "n \<in> set (txt_entries fs d)" for d n
  proof -
    from assms(2) that obtain content where "files fs (d @ n) = Some content"
      by blast
    then show ?thesis by (simp add: loaded_doc_def)
  qed
  have cont: "map (\<lambda>doc. Some (page_content doc)) ?docs =
      concat (map (\<lambda>folder. map (\<lambda>file. files fs (folder @ file)) (txt_entries fs folder)) ds)"
    unfolding map_concat map_map comp_def
    by (rule arg_cong [where f = concat]) (simp add: one)
  from run len meta cont show ?thesis
    by blast
qed

lemma txt_entries_d1: "txt_entries fs_two_dirs ''d1/'' = [''a.txt'']"
  by (simp add: txt_entries_def fs_two_dirs_def endswith_def)

lemma txt_entries_d2: "txt_entries fs_two_dirs ''d2/'' = [''b.txt'']"
  by (simp add: txt_entries_def fs_two_dirs_def endswith_def)

text \<open>Two directories with one text file each, and one entry that is not a text file.\<close>

theorem corpus_loader_one_document_per_text_file_witness:
  "\<exists>docs. legalbench_rag_retrieval_docs fs_two_dirs [''d1/'', ''d2/''] = Inr docs \<and>
     length docs = 2 \<and>
     map metadata docs =
       [[(''source_dataset'', MStr ''d1/''), (''filename'', MStr ''a.txt'')],
        [(''source_dataset'', MStr ''d2/''), (''filename'', MStr ''b.txt'')]] \<and>
     map page_content docs = [''first text'', ''second text'']"
proof -
  have h1: "\<forall>folder\<in>set [''d1/'', ''d2/'']. dirs fs_two_dirs folder \<noteq> None"
    by (simp add: fs_two_dirs_def)
  have h2: "\<forall>folder\<in>set [''d1/'', ''d2/''].
              \<forall>file\<in>set (txt_entries fs_two_dirs folder). files fs_two_dirs (folder @ file) \<noteq> None"
    by (simp add: txt_entries_d1 txt_entries_d2) (simp add: fs_two_dirs_def)
  from corpus_loader_one_document_per_text_file [OF h1 h2]
  obtain docs where d: "legalbench_rag_retrieval_docs fs_two_dirs [''d1/'', ''d2/''] = Inr docs"
    "length docs = sum_list (map (\<lambda>folder. length (txt_entries fs_two_dirs folder)) [''d1/'', ''d2/''])"
    "map metadata docs =
       concat (map (\<lambda>folder.
                      map (\<lambda>file. [(''source_dataset'', MStr folder), (''filename'', MStr file)])
                        (txt_entries fs_two_dirs folder)) [''d1/'', ''d2/''])"
    "map (\<lambda>doc. Some (page_content doc)) docs =
       concat (map (\<lambda>folder. map (\<lambda>file. files fs_two_dirs (folder @ file))
                                (txt_entries fs_two_dirs folder)) [''d1/'', ''d2/''])"
    by blast
  from d(4) have "map (\<lambda>doc. Some (page_content doc)) docs = [Some ''first text'', Some ''second text'']"
    by (simp add: txt_entries_d1 txt_entries_d2) (simp add: fs_two_dirs_def)
  then have "map the (map (\<lambda>doc. Some (page_content doc)) docs) =
             map the [Some ''first text'', Some ''second text'']"
    by (rule arg_cong)
  then have c: "map page_content docs = [''first text'', ''second text'']"
    by (simp add: comp_def)
  from d(1) d(2) d(3) c show ?thesis
    by (simp add: txt_entries_d1 txt_entries_d2)
qed

subsection \<open>The JSON checkpoint\<close>

lemma serializable_loop_eq: "serializable_loop rs out = out @ map serializable_res rs"
  by (induction rs arbitrary: out) simp_all

lemma serializable_results_eq: "serializable_results rs = map serializable_res rs"
  by (simp add: serializable_results_def serializable_loop_eq)

lemma load_each_map:
  assumes "\<And>x. f (g x) = Inr x"
  shows "load_each f (map g xs) = Inr xs"
  by (induction xs) (simp_all add: assms)

lemma load_page_dump: "load_page (dump_page chunk) = Inr chunk"
  by (simp add: load_page_def dump_page_def)

lemma load_result_dump: "load_result (dump_result res) = Inr res"
  by (simp add: load_result_def dump_result_def load_each_map load_page_dump)

lemma json_load_dump: "json_load (json_dump rs) = Inr rs"
  by (simp add: json_load_def json_dump_def load_each_map load_result_dump)

lemma json_results_save: "json_results (save_results fs rs) = Inr (map serializable_res rs)"
  by (simp add: json_results_def save_results_def json_load_dump serializable_results_eq)

text \<open>
  Claim C6. Writing a list of results to the checkpoint and reading the checkpoint back
  gives a list of the same length whose entries have, position by position, the same
  \<^verbatim>\<open>query_id\<close>, \<^verbatim>\<open>query\<close>, \<^verbatim>\<open>ground_truth_answer\<close> and \<^verbatim>\<open>generated_answer\<close>; of each
  retrieved chunk only the text comes back.
\<close>

theorem checkpoint_round_trip:
  "\<exists>loaded. json_results (save_results fs rs) = Inr loaded \<and>
     length loaded = length rs \<and>
     map query_id loaded = map query_id rs \<and>
     map query loaded = map query rs \<and>
     map ground_truth_answer loaded = map ground_truth_answer rs \<and>
     map generated_answer loaded = map generated_answer rs \<and>
     map retrieved_chunks loaded =
       map (\<lambda>res. map (\<lambda>chunk. \<lparr>page_content = page_content chunk\<rparr>) (retrieved_chunks res)) rs"
  by (simp add: json_results_save serializable_res_def comp_def)

text \<open>Two results, one with a chunk that carries metadata, one with no chunk.\<close>

theorem checkpoint_round_trip_witness:
  "json_results (save_results fs_empty [result_one, result_two]) =
     Inr [\<lparr>query_id = 7, query = ''q'', ground_truth_answer = [''A'', ''B''],
           generated_answer = ''g'', retrieved_chunks = [\<lparr>page_content = ''c''\<rparr>]\<rparr>,
          \<lparr>query_id = 3, query = ''r'', ground_truth_answer = [],
           generated_answer = ''h'', retrieved_chunks = []\<rparr>]"
proof -
  from checkpoint_round_trip [of fs_empty "[result_one, result_two]"]
  obtain loaded where l: "json_results (save_results fs_empty [result_one, result_two]) = Inr loaded"
    by blast
  then show ?thesis
    by (simp add: json_results_save serializable_res_def result_one_def result_two_def chunk_c_def)
qed

subsection \<open>Query identifiers\<close>

lemma digit_char_inj:
  assumes "a < 10" "b < 10" "digit_char a = digit_char b"
  shows "a = b"
proof -
  have cases: "\<And>n::nat. n < 10 \<Longrightarrow> n \<in> {0, 1, 2, 3, 4, 5, 6, 7, 8, 9}"
    by auto
  from cases [OF assms(1)] cases [OF assms(2)] assms(3) show ?thesis
    by (auto simp: digit_char_def)
qed

lemma nat_digits_not_Nil: "nat_digits n \<noteq> []"
  by (subst nat_digits.simps) simp

lemma nat_digits_last: "last (nat_digits n) = digit_char (n mod 10)"
  by (subst nat_digits.simps) simp

lemma nat_digits_butlast:
  "butlast (nat_digits n) = (if n < 10 then [] else nat_digits (n div 10))"
  by (subst nat_digits.simps) simp

lemma nat_digits_inj: "nat_digits m = nat_digits n \<Longrightarrow> m = n"
proof (induction m arbitrary: n rule: nat_digits.induct)
  case (1 m)
  from "1.prems" have l: "digit_char (m mod 10) = digit_char (n mod 10)"
    by (metis nat_digits_last)
  then have md: "m mod 10 = n mod 10"
    by (intro digit_char_inj) simp_all
  from "1.prems" have b: "butlast (nat_digits m) = butlast (nat_digits n)"
    by simp
  show ?case
  proof (cases "m < 10")
    case True
    with b have "n < 10"
      by (auto simp: nat_digits_butlast nat_digits_not_Nil split: if_splits)
    with True md show ?thesis by simp
  next
    case False
    with b have n: "\<not> n < 10"
      using nat_digits_not_Nil [of "m div 10"]
      by (auto simp: nat_digits_butlast split: if_splits)
    with False b have "nat_digits (m div 10) = nat_digits (n div 10)"
      by (simp add: nat_digits_butlast)
    with False "1.IH" have "m div 10 = n div 10" by simp
    with md show ?thesis
      by (metis div_mult_mod_eq)
  qed
qed

lemma nat_digits_no_minus: "CHR ''-'' \<notin> set (nat_digits n)"
proof (induction n rule: nat_digits.induct)
  case (1 n)
  have d: "digit_char k \<noteq> CHR ''-''" if "k < 10" for k
  proof -
    from that have "k \<in> {0, 1, 2, 3, 4, 5, 6, 7, 8, 9}" by auto
    then show ?thesis by (auto simp: digit_char_def)
  qed
  show ?case
  proof (cases "n < 10")
    case True
    then show ?thesis
      using d [of n] by (subst nat_digits.simps) auto
  next
    case False
    with 1 show ?thesis
      using d [of "n mod 10"] by (subst nat_digits.simps) auto
  qed
qed

lemma str_inj: "str i = str j \<Longrightarrow> i = j"
proof -
  assume e: "str i = str j"
  have hd_nonneg: "hd (nat_digits n) \<noteq> CHR ''-''" for n
    using nat_digits_no_minus [of n] nat_digits_not_Nil [of n]
    by (cases "nat_digits n") auto
  show ?thesis
  proof (cases "i < 0")
    case True
    show ?thesis
    proof (cases "j < 0")
      case j: True
      with True e have "nat (- i) = nat (- j)"
        by (simp add: str_def nat_digits_inj)
      with True j show ?thesis by simp
    next
      case False
      with True e hd_nonneg [of "nat j"] show ?thesis
        by (auto simp: str_def dest: arg_cong [where f = hd])
    qed
  next
    case False
    show ?thesis
    proof (cases "j < 0")
      case True
      with False e hd_nonneg [of "nat i"] show ?thesis
        by (auto simp: str_def dest: arg_cong [where f = hd])
    next
      case j: False
      with False e have "nat i = nat j"
        by (simp add: str_def nat_digits_inj)
      with False j show ?thesis by simp
    qed
  qed
qed

lemma inj_str: "inj str"
  by (rule injI) (rule str_inj)

lemma load_tests_append: "load_tests (xs @ ys) st = load_tests ys (load_tests xs st)"
  by (induction xs arbitrary: st) (auto simp: split_paired_all)

lemma load_tests_snd: "snd (load_tests exs (qas, n)) = n + int (length exs)"
  by (induction exs arbitrary: qas n) simp_all

lemma load_tests_ids:
  "map query_id (fst (load_tests exs (qas, n))) =
     map query_id qas @ map (\<lambda>k. n + int k) [0..<length exs]"
proof (induction exs arbitrary: qas n)
  case Nil
  then show ?case by simp
next
  case (Cons ex rest)
  have "map (\<lambda>k. n + int k) [0..<Suc (length rest)] =
        n # map (\<lambda>k. n + 1 + int k) [0..<length rest]"
    by (simp add: map_upt_Suc del: upt_Suc)
  with Cons show ?case by simp
qed

lemma load_tests_queries:
  "map query (fst (load_tests exs (qas, n))) = map query qas @ map example.query exs"
  by (induction exs arbitrary: qas n) simp_all

lemma load_benchmarks_eq:
  assumes "\<forall>b\<in>set benchmarks. bfiles b \<noteq> None"
  shows "load_benchmarks bfiles benchmarks st = Inr (load_tests (all_tests bfiles benchmarks) st)"
  using assms
proof (induction benchmarks arbitrary: st)
  case Nil
  then show ?case by (simp add: all_tests_def)
next
  case (Cons b rest)
  then obtain data where d: "bfiles b = Some data"
    by auto
  from Cons.prems have "\<forall>b\<in>set rest. bfiles b \<noteq> None"
    by simp
  then have "load_benchmarks bfiles rest (load_tests (tests data) st) =
             Inr (load_tests (all_tests bfiles rest) (load_tests (tests data) st))"
    by (rule Cons.IH)
  then show ?case
    by (simp add: d all_tests_def load_tests_append)
qed

lemma subset_loop_eq:
  assumes "\<forall>i\<in>set idxs. i < length qas"
  shows "subset_loop qas idxs sub = Inr (sub @ map (\<lambda>i. qas ! i) idxs)"
  using assms by (induction idxs arbitrary: sub) simp_all

lemma pipeline_loop_ids:
  "map query_id (pipeline_loop similarity_search invoke sub rs) =
     map query_id rs @ map query_id sub"
  by (induction sub arbitrary: rs) (simp_all add: Let_def)

lemma serializable_res_id: "query_id (serializable_res res) = query_id res"
  by (simp add: serializable_res_def)

lemma format_res_id: "rc_query_id (format_res res) = str (query_id res)"
  by (simp add: format_res_def)

text \<open>
  Claim C5. When every benchmark file loads, the question-answer pairs carry the
  identifiers 1, 2, 3, ... in the order of the files and, within a file, of its tests, so
  they are distinct. For sampled indices that are distinct positions of the list (what
  \<^verbatim>\<open>random.sample\<close> returns), every later stage carries the identifier of the pair it
  works on: the sampled subset, the results of the retrieval and generation loop, the
  results read back from the checkpoint, and the formatted results, where the identifier
  is its decimal rendering; at every stage the identifiers stay distinct.
\<close>

theorem query_ids_sequential_and_stable:
  assumes "\<forall>b\<in>set benchmarks. bfiles b \<noteq> None"
    and "distinct idxs"
    and "\<forall>i\<in>set idxs. i < length (all_tests bfiles benchmarks)"
  shows "\<exists>qas sub loaded.
           legalbench_rag_qa bfiles benchmarks = Inr qas \<and>
           map query_id qas = map (\<lambda>k. int k + 1) [0..<length (all_tests bfiles benchmarks)] \<and>
           map query qas = map example.query (all_tests bfiles benchmarks) \<and>
           distinct (map query_id qas) \<and>
           subset_loop qas idxs [] = Inr sub \<and>
           map query_id sub = map (\<lambda>i. int i + 1) idxs \<and>
           map query_id (results similarity_search invoke sub) = map query_id sub \<and>
           json_results (save_results fs (results similarity_search invoke sub)) = Inr loaded \<and>
           map query_id loaded = map query_id sub \<and>
           distinct (map query_id loaded) \<and>
           map rc_query_id (ragchecker_results loaded) =
             map (\<lambda>res. str (query_id res)) (filter (\<lambda>res. ground_truth_answer res \<noteq> []) loaded) \<and>
           distinct (map rc_query_id (ragchecker_results loaded))"
proof -
  let ?n = "length (all_tests bfiles benchmarks)"
  let ?qas = "fst (load_tests (all_tests bfiles benchmarks) ([], 1))"
  let ?sub = "map (\<lambda>i. ?qas ! i) idxs"
  let ?rs = "results similarity_search invoke ?sub"
  let ?loaded = "map serializable_res ?rs"
  have load: "legalbench_rag_qa bfiles benchmarks = Inr ?qas"
    by (simp add: legalbench_rag_qa_def load_benchmarks_eq [OF assms(1)] split: prod.splits)
  have ids: "map query_id ?qas = map (\<lambda>k. int k + 1) [0..<?n]"
    by (simp add: load_tests_ids add.commute)
  have queries: "map query ?qas = map example.query (all_tests bfiles benchmarks)"
    by (simp add: load_tests_queries)
  have len: "length ?qas = ?n"
    using arg_cong [OF ids, of length] by simp
  have "inj_on (\<lambda>k. int k + 1) (set [0..<?n])"
    by (rule inj_onI) simp
  then have dist: "distinct (map query_id ?qas)"
    by (simp add: ids distinct_map)
  have sub: "subset_loop ?qas idxs [] = Inr ?sub"
    using assms(3) by (simp add: subset_loop_eq len)
  have nth_id: "query_id (?qas ! i) = int i + 1" if "i < ?n" for i
  proof -
    from that have "query_id (?qas ! i) = map query_id ?qas ! i"
      by (simp add: len)
    also from that have "\<dots> = int i + 1"
      by (simp only: ids) simp
    finally show ?thesis .
  qed
  have sub_ids: "map query_id ?sub = map (\<lambda>i. int i + 1) idxs"
    using assms(3) by (simp add: nth_id)
  have res_ids: "map query_id ?rs = map query_id ?sub"
    by (simp add: results_def pipeline_loop_ids)
  have saved: "json_results (save_results fs ?rs) = Inr ?loaded"
    by (rule json_results_save)
  have loaded_ids: "map query_id ?loaded = map query_id ?sub"
    using res_ids by (simp add: comp_def serializable_res_id)
  have "inj_on (\<lambda>i. int i + 1) (set idxs)"
    by (rule inj_onI) simp
  with assms(2) have "distinct (map (\<lambda>i. int i + 1) idxs)"
    by (simp add: distinct_map)
  then have loaded_dist: "distinct (map query_id ?loaded)"
    by (simp only: loaded_ids sub_ids)
  have fmt: "map rc_query_id (ragchecker_results ?loaded) =
      map (\<lambda>res. str (query_id res)) (filter (\<lambda>res. ground_truth_answer res \<noteq> []) ?loaded)"
    by (simp add: ragchecker_results_def ragchecker_loop_eq format_res_id comp_def)
  have "distinct (map query_id (filter (\<lambda>res. ground_truth_answer res \<noteq> []) ?loaded))"
    using loaded_dist by (rule distinct_map_filter)
  then have "distinct (map str (map query_id (filter (\<lambda>res. ground_truth_answer res \<noteq> []) ?loaded)))"
    using inj_str by (simp add: distinct_map inj_on_def inj_def)
  then have fmt_dist: "distinct (map rc_query_id (ragchecker_results ?loaded))"
    by (simp only: fmt) (simp add: comp_def)
  from load ids queries dist sub sub_ids res_ids saved loaded_ids loaded_dist fmt fmt_dist
  show ?thesis
    by blast
qed

text \<open>
  Two benchmark files with two tests and one test; the sample takes the positions 2, 1
  and 0. The second test has no snippet, so the formatter leaves it out.
\<close>

theorem query_ids_sequential_and_stable_witness:
  "\<exists>qas sub loaded.
     legalbench_rag_qa bench_files [''b1.json'', ''b2.json''] = Inr qas \<and>
     map query_id qas = [1, 2, 3] \<and>
     map query qas = [''q1'', ''q2'', ''q3''] \<and>
     subset_loop qas [2, 1, 0] [] = Inr sub \<and>
     map query_id sub = [3, 2, 1] \<and>
     json_results (save_results fs_empty (results (\<lambda>q k. []) (\<lambda>p. ''g'') sub)) = Inr loaded \<and>
     map query_id loaded = [3, 2, 1] \<and>
     map rc_query_id (ragchecker_results loaded) = [''3'', ''1'']"
proof -
  have h1: "\<forall>b\<in>set [''b1.json'', ''b2.json'']. bench_files b \<noteq> None"
    by (simp add: bench_files_def)
  have n: "length (all_tests bench_files [''b1.json'', ''b2.json'']) = 3"
    by (simp add: all_tests_def bench_files_def)
  have h2: "distinct [2, 1, 0 :: nat]"
    by simp
  have h3: "\<forall>i\<in>set [2, 1, 0]. i < length (all_tests bench_files [''b1.json'', ''b2.json''])"
    by (simp add: n)
  from query_ids_sequential_and_stable [OF h1 h2 h3, of "\<lambda>q k. []" "\<lambda>p. ''g''" fs_empty]
  obtain qas sub loaded where
    a: "legalbench_rag_qa bench_files [''b1.json'', ''b2.json''] = Inr qas"
    and b: "map query_id qas = map (\<lambda>k. int k + 1) [0..<3]"
    and c: "map query qas = map example.query (all_tests bench_files [''b1.json'', ''b2.json''])"
    and d: "subset_loop qas [2, 1, 0] [] = Inr sub"
    and e: "map query_id sub = map (\<lambda>i. int i + 1) [2, 1, 0]"
    and f: "json_results (save_results fs_empty (results (\<lambda>q k. []) (\<lambda>p. ''g'') sub)) = Inr loaded"
    and g: "map query_id loaded = map query_id sub"
    unfolding n by blast
  have b': "map query_id qas = [1, 2, 3]"
    using b by (simp add: upt_rec)
  have c': "map query qas = [''q1'', ''q2'', ''q3'']"
    using c by (simp add: all_tests_def bench_files_def)
  have "legalbench_rag_qa bench_files [''b1.json'', ''b2.json''] =
      Inr [\<lparr>query_id = 1, query = ''q1'', answers = [''a1\<newline>Source: f1.txt'']\<rparr>,
           \<lparr>query_id = 2, query = ''q2'', answers = []\<rparr>,
           \<lparr>query_id = 3, query = ''q3'',
             answers = [''a3\<newline>Source: f3.txt'', ''a4\<newline>Source: f4.txt'']\<rparr>]"
    by (simp add: legalbench_rag_qa_def bench_files_def)
  with a have qas: "qas =
      [\<lparr>query_id = 1, query = ''q1'', answers = [''a1\<newline>Source: f1.txt'']\<rparr>,
       \<lparr>query_id = 2, query = ''q2'', answers = []\<rparr>,
       \<lparr>query_id = 3, query = ''q3'',
         answers = [''a3\<newline>Source: f3.txt'', ''a4\<newline>Source: f4.txt'']\<rparr>]"
    by simp
  from d have sub: "sub = [qas ! 2, qas ! 1, qas ! 0]"
    by (simp add: qas)
  from f have loaded: "loaded = map serializable_res (results (\<lambda>q k. []) (\<lambda>p. ''g'') sub)"
    by (simp add: json_results_save)
  have h: "map rc_query_id (ragchecker_results loaded) = [''3'', ''1'']"
    by (simp add: loaded sub qas results_def Let_def serializable_res_def ragchecker_results_def
        format_res_def str_def digit_char_def)
  from a b' c' d e f g h show ?thesis
    by auto
qed

subsection \<open>Sampling\<close>

text \<open>
  Claim C7. Seeding sets the generator's state whatever it was before
  (\<^verbatim>\<open>random.seed(100)\<close> depends on the seed alone). Then two runs of the sampling cell,
  from any two states of the generator, leave the same sampled indices, the same remaining
  indices, the same sampled subset and the same generator state.
\<close>

theorem sampling_is_deterministic:
  assumes "\<forall>a g g'. random_seed rnd a g = random_seed rnd a g'"
  shows "sampling_cell rnd g qas = sampling_cell rnd g' qas"
proof -
  from assms have "random_seed rnd 100 g = random_seed rnd 100 g'"
    by blast
  then show ?thesis
    by (simp add: sampling_cell_def)
qed

text \<open>The counting generator, started from the states 3 and 5.\<close>

theorem sampling_is_deterministic_witness:
  "sampling_cell counter_random 3 [] = sampling_cell counter_random 5 [] \<and>
   take 3 (fst (sampling_cell counter_random 3 [])) = [100, 101, 102]"
proof -
  have h: "\<forall>a g g'. random_seed counter_random a g = random_seed counter_random a g'"
    by (simp add: counter_random_def)
  have "fst (sampling_cell counter_random 3 []) = map (\<lambda>i. (100 + i) mod 6889) [0..<100]"
    by (simp add: sampling_cell_def counter_random_def)
  moreover have "take 3 [0..<100::nat] = [0, 1, 2]"
    by (simp add: take_upt) (simp add: upt_rec)
  ultimately have "take 3 (fst (sampling_cell counter_random 3 [])) = [100, 101, 102]"
    by (simp add: take_map)
  with sampling_is_deterministic [OF h, of 3 "[]" 5] show ?thesis
    by simp
qed

subsection \<open>The shared results file\<close>

lemma write_ragchecker_results:
  "framework_results (write_ragchecker fs a) = ''RAGChecker results:\<newline>\<newline>'' @ a"
  by (simp add: framework_results_def write_ragchecker_def write_file_def)

lemma write_ragas_results:
  "framework_results (write_ragas fs b) =
     framework_results fs @ ''\<newline>\<newline>RAGAs results:\<newline>\<newline>'' @ b"
  by (simp add: framework_results_def write_ragas_def write_file_def)

text \<open>
  The claim C8 as the spec states it fails for the first of the two writes: the RAGChecker
  block is written in mode \<^verbatim>\<open>"w"\<close>, so a file that holds an earlier block holds none of it
  afterwards (what the file held is not a prefix of what it holds).
\<close>

theorem ragchecker_write_truncates_counterexample:
  "framework_results fs_old_block = ''ARES results: earlier block'' \<and>
   take (length (framework_results fs_old_block))
     (framework_results (write_ragchecker fs_old_block ''m'')) \<noteq>
   framework_results fs_old_block"
  by (simp add: write_ragchecker_results) (simp add: framework_results_def fs_old_block_def)

text \<open>
  Claim C8, amended. The RAGChecker write replaces the content of the shared file by its
  block; the RAGAs write appends its block and leaves what the file held unchanged in
  front of it; every other file is untouched by both. So after the two writes in the
  notebook's order the file holds the RAGChecker block followed by the RAGAs block,
  whatever it held before.
\<close>

theorem framework_results_blocks:
  "framework_results (write_ragchecker fs a) = ''RAGChecker results:\<newline>\<newline>'' @ a \<and>
   framework_results (write_ragas fs b) =
     framework_results fs @ ''\<newline>\<newline>RAGAs results:\<newline>\<newline>'' @ b \<and>
   framework_results (write_ragas (write_ragchecker fs a) b) =
     ''RAGChecker results:\<newline>\<newline>'' @ a @ ''\<newline>\<newline>RAGAs results:\<newline>\<newline>'' @ b \<and>
   (\<forall>path. path \<noteq> framework_results_path \<longrightarrow>
      files (write_ragas (write_ragchecker fs a) b) path = files fs path)"
  by (simp add: write_ragchecker_results write_ragas_results)
     (simp add: write_ragchecker_def write_ragas_def write_file_def)

text \<open>On the file that held an earlier block; the checkpoint's path is left alone.\<close>

theorem framework_results_blocks_witness:
  "framework_results (write_ragas (write_ragchecker fs_old_block ''m'') ''n'') =
     ''RAGChecker results:\<newline>\<newline>m\<newline>\<newline>RAGAs results:\<newline>\<newline>n'' \<and>
   files (write_ragas (write_ragchecker fs_old_block ''m'') ''n'') results_path =
     files fs_old_block results_path"
proof -
  have "results_path \<noteq> framework_results_path"
    by (simp add: results_path_def framework_results_path_def)
  with framework_results_blocks [of fs_old_block "''m''" "''n''"] show ?thesis
    by simp
qed

subsection \<open>The metric accumulator\<close>

lemma single_turn_sample_of:
  assumes "ground_truth_answer r \<noteq> []"
  shows "single_turn r = Inr (sample_of r)"
  using assms by (cases "ground_truth_answer r") (simp_all add: single_turn_def sample_of_def)

lemma ragas_loop_sums:
  assumes "\<forall>r\<in>set rs. ground_truth_answer r \<noteq> []"
  shows "ragas_loop ar sc rs
           [(''faithfulness'', a), (''answer_relevance'', b), (''context_relevance'', c)] =
         Inr [(''faithfulness'', running_sum ar (faithfulness sc) a rs),
              (''answer_relevance'', running_sum ar (answer_relevance sc) b rs),
              (''context_relevance'', running_sum ar (context_relevance sc) c rs)]"
  using assms
proof (induction rs arbitrary: a b c)
  case Nil
  then show ?case by (simp add: running_sum_def)
next
  case (Cons r rest)
  from Cons.prems have s: "single_turn r = Inr (sample_of r)"
    by (simp add: single_turn_sample_of)
  from Cons.prems have rest: "\<forall>r\<in>set rest. ground_truth_answer r \<noteq> []"
    by simp
  show ?case
    by (simp add: s add_to_def Cons.IH [OF rest] running_sum_def)
qed

lemma ragas_loop_raises:
  "ragas_loop ar sc (r # rest) metrics = Inl IndexError" if "ground_truth_answer r = []"
  using that by (simp add: single_turn_def)

text \<open>
  What the cell leaves for a list of results that each have a ground-truth answer: for
  each metric, the running sum divided by the literal 100, whatever the length of the
  list.
\<close>

lemma ragas_metrics_eq:
  assumes "\<forall>r\<in>set rs. ground_truth_answer r \<noteq> []"
  shows "ragas_metrics ar sc rs =
           Inr [(''faithfulness'',
                   py_truediv ar (running_sum ar (faithfulness sc) (py_int ar 0) rs) (py_int ar 100)),
                (''answer_relevance'',
                   py_truediv ar (running_sum ar (answer_relevance sc) (py_int ar 0) rs)
                     (py_int ar 100)),
                (''context_relevance'',
                   py_truediv ar (running_sum ar (context_relevance sc) (py_int ar 0) rs)
                     (py_int ar 100))]"
  by (simp add: ragas_metrics_def ragas_loop_sums [OF assms])

text \<open>
  On the 100 results the notebook's own run hands to the cell, the divisor is the number
  of results.
\<close>

lemma ragas_metrics_100_records:
  assumes "\<forall>r\<in>set rs. ground_truth_answer r \<noteq> []" and "length rs = 100"
  shows "ragas_metrics ar sc rs =
           Inr [(''faithfulness'',
                   py_truediv ar (running_sum ar (faithfulness sc) (py_int ar 0) rs)
                     (py_int ar (int (length rs)))),
                (''answer_relevance'',
                   py_truediv ar (running_sum ar (answer_relevance sc) (py_int ar 0) rs)
                     (py_int ar (int (length rs)))),
                (''context_relevance'',
                   py_truediv ar (running_sum ar (context_relevance sc) (py_int ar 0) rs)
                     (py_int ar (int (length rs))))]"
  by (simp add: ragas_metrics_eq [OF assms(1)] assms(2))


text \<open>
  With exact arithmetic and the scores 1, 1/2 and 0, the one result leaves 1/100, 1/200
  and 0, while the means over the one result are 1, 1/2 and 0.
\<close>

lemma ragas_single_record_exact:
  "ragas_metrics exact_arithmetic unit_scorers [res_AB] =
     Inr [(''faithfulness'', 1 / 100), (''answer_relevance'', 1 / 200),
          (''context_relevance'', 0)] \<and>
   running_sum exact_arithmetic (faithfulness unit_scorers) 0 [res_AB] / real (length [res_AB]) = 1"
proof -
  have gt: "\<forall>r\<in>set [res_AB]. ground_truth_answer r \<noteq> []"
    by (simp add: res_AB_def)
  show ?thesis
    by (simp add: ragas_metrics_eq [OF gt] running_sum_def exact_arithmetic_def unit_scorers_def)
qed

subsection \<open>Chunking\<close>

lemma window_starts_length:
  "length (window_starts 2000 500 n start) =
     (if start + 2000 < n then (n - start - 501) div 1500 + 1 else 1)"
proof (induction "n - start" arbitrary: start rule: less_induct)
  case less
  show ?case
  proof (cases "start + 2000 < n")
    case True
    then have unfold:
      "window_starts 2000 500 n start = start # window_starts 2000 500 n (start + 1500)"
      by (subst window_starts.simps) simp
    from True have "n - (start + 1500) < n - start"
      by simp
    then have ih: "length (window_starts 2000 500 n (start + 1500)) =
        (if start + 1500 + 2000 < n then (n - (start + 1500) - 501) div 1500 + 1 else 1)"
      by (rule less)
    have arith: "(if start + 1500 + 2000 < n then (n - (start + 1500) - 501) div 1500 + 1 else 1) + 1 =
        (n - start - 501) div 1500 + 1"
      using True by (auto; presburger)
    have "length (window_starts 2000 500 n start) =
        (if start + 1500 + 2000 < n then (n - (start + 1500) - 501) div 1500 + 1 else 1) + 1"
      by (simp only: unfold ih list.size)
    with True show ?thesis
      by (simp only: arith if_True)
  next
    case False
    then have "window_starts 2000 500 n start = [start]"
      by (subst window_starts.simps) simp
    with False show ?thesis by simp
  qed
qed

lemma ceiling_chunks:
  assumes "2000 \<le> n"
  shows "nat \<lceil>(real n - 500) / 1500\<rceil> = (n - 501) div 1500 + 1"
proof -
  have r: "(real n - 500) / 1500 = real_of_int (int n - 500) / real_of_int 1500"
    by simp
  have c: "\<lceil>(real n - 500) / 1500\<rceil> = - ((500 - int n) div 1500)"
    unfolding r ceiling_divide_eq_div by simp
  from assms obtain m where n: "n = m + 2000"
    by (metis add.commute le_Suc_ex)
  have "int ((n - 501) div 1500 + 1) = int (m + 1499) div 1500 + 1"
    unfolding n by (simp add: zdiv_int)
  also have "\<dots> = - ((500 - int n) div 1500)"
    unfolding n by (simp; presburger)
  finally have "int ((n - 501) div 1500 + 1) = \<lceil>(real n - 500) / 1500\<rceil>"
    by (simp only: c)
  then show ?thesis
    by (metis nat_int)
qed
lemma split_document_starts:
  "map start_index (split_document text_splitter doc) =
     map (\<lambda>start. Some (MInt (int start)))
       (window_starts 2000 500 (length (page_content doc)) 0)"
  by (simp add: split_document_def text_splitter_def start_index_def comp_def
      AList.update_conv')

lemma window_starts_3000: "window_starts 2000 500 3000 0 = [0, 1500]"
proof -
  have "window_starts 2000 500 3000 1500 = [1500]"
    by (subst window_starts.simps) simp
  then show ?thesis
    by (subst window_starts.simps) simp
qed

lemma window_starts_1000: "window_starts 2000 500 1000 0 = [0]"
  by (subst window_starts.simps) simp

text \<open>
  Claim C3. On the sliding-window splitter with a window of 2000 characters and an
  overlap of 500, a document of \<open>L\<close> characters yields one chunk when \<open>L < 2000\<close> and
  \<open>\<lceil>(L - 500) / 1500\<rceil>\<close> chunks otherwise; a document of 3000 characters yields the
  chunks that start at 0 and 1500, and one of 1000 characters the chunk that starts at 0.
\<close>

theorem chunk_count:
  "length (split_document text_splitter doc) =
     (if length (page_content doc) < 2000 then 1
      else nat \<lceil>(real (length (page_content doc)) - 500) / 1500\<rceil>) \<and>
   (length (page_content doc) = 3000 \<longrightarrow>
      map start_index (split_document text_splitter doc) = [Some (MInt 0), Some (MInt 1500)]) \<and>
   (length (page_content doc) = 1000 \<longrightarrow>
      map start_index (split_document text_splitter doc) = [Some (MInt 0)])"
proof -
  let ?n = "length (page_content doc)"
  have len: "length (split_document text_splitter doc) = length (window_starts 2000 500 ?n 0)"
    by (simp add: split_document_def text_splitter_def)
  have count: "length (window_starts 2000 500 ?n 0) =
      (if ?n < 2000 then 1 else nat \<lceil>(real ?n - 500) / 1500\<rceil>)"
  proof (cases "?n < 2000")
    case True
    then show ?thesis by (simp add: window_starts_length)
  next
    case False
    then have "2000 \<le> ?n" by simp
    from ceiling_chunks [OF this] False show ?thesis
      by (simp only: window_starts_length) (auto; presburger)
  qed
  show ?thesis
    by (simp add: len count split_document_starts window_starts_3000 window_starts_1000)
qed

text \<open>
  The end-to-end scenario of the spec: documents of 3000 and of 1000 characters give two
  chunks at the offsets 0 and 1500 and one chunk at the offset 0.
\<close>

theorem chunk_count_witness:
  "length (split_document text_splitter doc_3000) = 2 \<and>
   map start_index (split_document text_splitter doc_3000) = [Some (MInt 0), Some (MInt 1500)] \<and>
   length (split_document text_splitter doc_1000) = 1 \<and>
   map start_index (legalbench_rag_chunks [doc_3000, doc_1000]) =
     [Some (MInt 0), Some (MInt 1500), Some (MInt 0)]"
proof -
  have l3: "length (page_content doc_3000) = 3000"
    by (simp add: doc_3000_def)
  have l1: "length (page_content doc_1000) = 1000"
    by (simp add: doc_1000_def)
  have c: "nat \<lceil>(3000 - 500) / (1500::real)\<rceil> = 2"
    by (simp add: ceiling_unique)
  from chunk_count [of doc_3000] chunk_count [of doc_1000] show ?thesis
    by (simp add: l3 l1 c legalbench_rag_chunks_def split_documents_def)
qed

subsection \<open>The vector store\<close>

lemma fold_max_upt: "fold max [1..<Suc k] (0::nat) = k"
  by (induction k) simp_all

lemma add_texts_rows:
  assumes "map rowid store = [1..<Suc (length store)]"
  shows "add_texts embedding store texts None kwargs =
           store @ map (\<lambda>(i, t). \<lparr>rowid = length store + 1 + i, row_text = t,
                                   row_metadata = [], text_embedding = embedding t\<rparr>)
                     (zip [0..<length texts] texts)"
proof -
  have z: "zip [0..<length texts] (zip texts (map (\<lambda>_. []) texts)) =
        map (\<lambda>(i, t). (i, t, [])) (zip [0..<length texts] texts)"
    by (simp add: zip_map2 zip_same_conv_map zip_map_map split_def zip_assoc)
  have f: "fold max (map rowid store) 0 = length store"
    by (simp only: assms fold_max_upt)
  show ?thesis
    by (simp add: add_texts_def f z split_def comp_def del: upt_Suc)
qed

lemma map_snd_zip_upt: "map (\<lambda>p. f (snd p)) (zip [0..<length ys] ys) = map f ys"
proof -
  have "length xs = length ys \<Longrightarrow> map (\<lambda>p. f (snd p)) (zip xs ys) = map f ys" for xs :: "nat list"
    by (induction xs ys rule: list_induct2) simp_all
  then show ?thesis by simp
qed

lemma map_fst_zip_upt: "map (\<lambda>p. f (fst p)) (zip [0..<length ys] ys) = map f [0..<length ys]"
proof -
  have "length xs = length ys \<Longrightarrow> map (\<lambda>p. f (fst p)) (zip xs ys) = map f xs" for xs :: "nat list"
    by (induction xs ys rule: list_induct2) simp_all
  then show ?thesis by simp
qed

lemma add_texts_fields:
  assumes "map rowid store = [1..<Suc (length store)]"
  shows "map row_text (add_texts embedding store texts None kwargs) = map row_text store @ texts"
    and "map row_metadata (add_texts embedding store texts None kwargs) =
           map row_metadata store @ replicate (length texts) []"
    and "map text_embedding (add_texts embedding store texts None kwargs) =
           map text_embedding store @ map embedding texts"
    and "map rowid (add_texts embedding store texts None kwargs) =
           [1..<Suc (length (add_texts embedding store texts None kwargs))]"
proof -
  let ?n = "length texts"
  have snd_zip: "map snd (zip [0..<?n] texts) = texts"
    by (simp add: map_snd_zip)
  have fst_zip: "map fst (zip [0..<?n] texts) = [0..<?n]"
    by (simp add: map_fst_zip)
  show "map row_text (add_texts embedding store texts None kwargs) = map row_text store @ texts"
    using snd_zip by (simp add: add_texts_rows [OF assms] comp_def split_def)
  have "map (\<lambda>p. []) (zip [0..<?n] texts) = replicate ?n []"
    by (simp add: map_replicate_const)
  then show "map row_metadata (add_texts embedding store texts None kwargs) =
      map row_metadata store @ replicate (length texts) []"
    by (simp add: add_texts_rows [OF assms] comp_def split_def)
  have emb: "map (\<lambda>p. embedding (snd p)) (zip [0..<?n] texts) = map embedding texts"
    by (rule map_snd_zip_upt)
  show "map text_embedding (add_texts embedding store texts None kwargs) =
      map text_embedding store @ map embedding texts"
    by (simp add: add_texts_rows [OF assms] comp_def split_def emb)
  have "map (\<lambda>p. Suc (length store + fst p)) (zip [0..<?n] texts) =
        map (\<lambda>j. Suc (length store + j)) [0..<?n]"
    by (rule map_fst_zip_upt)
  also have "\<dots> = [Suc (length store)..<Suc (length store) + ?n]"
    using map_add_upt [of "Suc (length store)" ?n] by (simp add: add.commute del: upt_Suc)
  finally have new: "map (\<lambda>p. Suc (length store + fst p)) (zip [0..<?n] texts) =
      [Suc (length store)..<Suc (length store) + ?n]" .
  have "[1..<Suc (length store)] @ [Suc (length store)..<Suc (length store) + ?n] =
        [1..<Suc (length store) + ?n]"
    using upt_add_eq_append [of 1 "Suc (length store)" ?n] by (simp del: upt_Suc)
  then show "map rowid (add_texts embedding store texts None kwargs) =
      [1..<Suc (length (add_texts embedding store texts None kwargs))]"
    by (simp add: add_texts_rows [OF assms] comp_def split_def assms new del: upt_Suc)
qed

lemma index_batches_fields:
  assumes "0 < batch_size"
    and "map rowid store = [1..<Suc (length store)]"
    and "map row_text store = map page_content (take i chunks)"
    and "map row_metadata store = replicate (length store) []"
    and "map text_embedding store = map (\<lambda>chunk. embedding (page_content chunk)) (take i chunks)"
  shows "map row_text (index_batches embedding chunks batch_size i store) = map page_content chunks \<and>
         map row_metadata (index_batches embedding chunks batch_size i store) =
           replicate (length chunks) [] \<and>
         map text_embedding (index_batches embedding chunks batch_size i store) =
           map (\<lambda>chunk. embedding (page_content chunk)) chunks \<and>
         map rowid (index_batches embedding chunks batch_size i store) = [1..<Suc (length chunks)]"
  using assms
proof (induction embedding chunks batch_size i store rule: index_batches.induct)
  case (1 embedding chunks batch_size i store)
  show ?case
  proof (cases "i < length chunks")
    case True
    let ?batch = "take batch_size (drop i chunks)"
    let ?store = "add_texts embedding store (map page_content ?batch) None
                    [(''metdata'', map metadata ?batch)]"
    have step: "index_batches embedding chunks batch_size i store =
        index_batches embedding chunks batch_size (i + batch_size) ?store"
      using True "1.prems"(1) by (subst index_batches.simps) (simp add: Let_def)
    note f = add_texts_fields [OF "1.prems"(2), of embedding "map page_content ?batch"
        "[(''metdata'', map metadata ?batch)]"]
    have tk: "take (i + batch_size) chunks = take i chunks @ ?batch"
      by (simp add: take_add)
    have len: "length ?store = length store + length ?batch"
      using arg_cong [OF f(1), of length] by simp
    have "map row_text (index_batches embedding chunks batch_size (i + batch_size) ?store) =
            map page_content chunks \<and>
          map row_metadata (index_batches embedding chunks batch_size (i + batch_size) ?store) =
            replicate (length chunks) [] \<and>
          map text_embedding (index_batches embedding chunks batch_size (i + batch_size) ?store) =
            map (\<lambda>chunk. embedding (page_content chunk)) chunks \<and>
          map rowid (index_batches embedding chunks batch_size (i + batch_size) ?store) =
            [1..<Suc (length chunks)]"
    proof (rule "1.IH" [OF _ refl refl])
      show "0 < batch_size \<and> i < length chunks"
        using True "1.prems"(1) by simp
      show "0 < batch_size" by (rule "1.prems"(1))
      show "map rowid ?store = [1..<Suc (length ?store)]"
        by (rule f(4))
      show "map row_text ?store = map page_content (take (i + batch_size) chunks)"
        by (simp only: f(1) "1.prems"(3) tk map_append)
      show "map row_metadata ?store = replicate (length ?store) []"
        by (simp only: f(2) "1.prems"(4) len length_map replicate_add)
      show "map text_embedding ?store =
          map (\<lambda>chunk. embedding (page_content chunk)) (take (i + batch_size) chunks)"
        by (simp only: f(3) "1.prems"(5) tk map_append map_map comp_def)
    qed
    then show ?thesis
      by (simp only: step)
  next
    case False
    then have stop: "index_batches embedding chunks batch_size i store = store"
      by (subst index_batches.simps) simp
    from False have all: "take i chunks = chunks"
      by simp
    have len: "length store = length chunks"
      using arg_cong [OF "1.prems"(3), of length] all by simp
    from "1.prems" show ?thesis
      by (simp add: stop all len del: upt_Suc)
  qed
qed

lemma vector_store_fields:
  "map row_text (legalbench_rag_vector_store embedding uuid4 chunks) = map page_content chunks \<and>
   map row_metadata (legalbench_rag_vector_store embedding uuid4 chunks) =
     replicate (length chunks) [] \<and>
   map text_embedding (legalbench_rag_vector_store embedding uuid4 chunks) =
     map (\<lambda>chunk. embedding (page_content chunk)) chunks \<and>
   map rowid (legalbench_rag_vector_store embedding uuid4 chunks) = [1..<Suc (length chunks)]"
  unfolding legalbench_rag_vector_store_def Let_def
  by (rule index_batches_fields) simp_all

text \<open>
  Claim C2 at a chunk that carries \<^verbatim>\<open>source_dataset\<close>, \<^verbatim>\<open>filename\<close> and
  \<^verbatim>\<open>start_index\<close>: the store keeps the text and its embedding under the row number 1,
  and an empty metadata dictionary, so the row does not lead back to the file name that
  the chunk carries.
\<close>

theorem vector_store_drops_chunk_metadata:
  "legalbench_rag_vector_store embedding uuid4 [chunk_c] =
     [\<lparr>rowid = 1, row_text = ''c'', row_metadata = [], text_embedding = embedding ''c''\<rparr>] \<and>
   map_of (metadata chunk_c) ''filename'' = Some (MStr ''a.txt'') \<and>
   map (\<lambda>row. map_of (row_metadata row) ''filename'')
     (legalbench_rag_vector_store embedding uuid4 [chunk_c]) = [None]"
proof -
  have second: "index_batches embedding [chunk] 1000 1000 store = store"
    for store :: "'a row list" and chunk
    by (subst index_batches.simps) simp
  have "legalbench_rag_vector_store embedding uuid4 [chunk_c] =
      [\<lparr>rowid = 1, row_text = ''c'', row_metadata = [], text_embedding = embedding ''c''\<rparr>]"
    unfolding legalbench_rag_vector_store_def Let_def
    by (subst index_batches.simps) (simp add: second add_texts_def chunk_c_def)
  then show ?thesis
    by (simp add: chunk_c_def)
qed


end
